theory Spec2Isabelle
  imports Complex_Main "HOL-Library.AList" "HOL-Library.Sublist"
begin

section \<open>Data model\<close>

text \<open>
  The notebook \<^verbatim>\<open>Using_an_SBML_model.ipynb\<close> works on the objects the SBML parser
  returns. Of a compound it reads the attribute \<^verbatim>\<open>uptake_secretion\<close> and tests it
  for membership in the media; of a reaction it reads \<^verbatim>\<open>name\<close> and
  \<^verbatim>\<open>all_compounds()\<close> and writes \<^verbatim>\<open>is_uptake_secretion\<close> and
  \<^verbatim>\<open>lower_bound\<close>. No cell writes to a compound, so compounds are values.
  Reactions are mutable objects that several dictionaries refer to, so they live in a
  store indexed by addresses, and a dictionary of reactions holds addresses.
\<close>

record compound =
  cname :: string
  uptake_secretion :: bool

record reaction =
  name :: string
  all_compounds :: "compound list"
  lower_bound :: real
  upper_bound :: real
  is_uptake_secretion :: bool

type_synonym addr = nat

type_synonym heap = "addr \<Rightarrow> reaction"

text \<open>
  A Python dictionary with string keys, as the list of its items in the order in which
  iterating the dictionary yields them. The keys of a dictionary are distinct. A
  dictionary that a cell builds has its items in the order of insertion.
\<close>

type_synonym 'v dict = "(string \<times> 'v) list"

text \<open>The media: the set of compounds \<open>c\<close> for which \<^verbatim>\<open>c in media\<close> holds.\<close>

type_synonym media = "compound set"

datatype py_error = KeyError

text \<open>\<^verbatim>\<open>d[k]\<close> read from a dictionary: a missing key raises.\<close>

definition getitem :: "'v dict \<Rightarrow> string \<Rightarrow> py_error + 'v" where
  "getitem d k = (case map_of d k of None \<Rightarrow> Inl KeyError | Some v \<Rightarrow> Inr v)"

section \<open>Strings\<close>

text \<open>\<^verbatim>\<open>str.lower()\<close> on the letters A to Z; every other character is kept.\<close>

definition lower_char :: "char \<Rightarrow> char" where
  "lower_char c =
     (case map_of (zip ''ABCDEFGHIJKLMNOPQRSTUVWXYZ'' ''abcdefghijklmnopqrstuvwxyz'') c of
        None \<Rightarrow> c
      | Some l \<Rightarrow> l)"

definition lower :: "string \<Rightarrow> string" where
  "lower s = map lower_char s"

text \<open>\<^verbatim>\<open>sub in s\<close> on strings: \<open>sub\<close> occurs in \<open>s\<close> as a contiguous run.\<close>

fun contains :: "string \<Rightarrow> string \<Rightarrow> bool" where
  "contains sub [] = (sub = [])"
| "contains sub (x # xs) = (prefix sub (x # xs) \<or> contains sub xs)"

text \<open>The test of cell 5: \<^verbatim>\<open>'biomass_equation' in reactions[r].name.lower()\<close>.\<close>

definition is_biomass :: "reaction \<Rightarrow> bool" where
  "is_biomass rxn = contains ''biomass_equation'' (lower (name rxn))"

section \<open>Cell 5: classifying the reactions\<close>

text \<open>
  \<^verbatim>\<open>
  reactions = sbml.reactions
  reactions_to_run = set()
  uptake_secretion_reactions = {}
  biomass_equation = None
  for r in reactions:
      if 'biomass_equation' in reactions[r].name.lower():
          biomass_equation = reactions[r]
          continue
      is_boundary = False
      for c in reactions[r].all_compounds():
          if c.uptake_secretion:
              is_boundary = True
      if is_boundary:
          reactions[r].is_uptake_secretion = True
          uptake_secretion_reactions[r] = reactions[r]
      else:
          reactions_to_run.add(r)
  \<close>
  The state of the loop is the store and the three variables the cell builds.
\<close>

record classified =
  store :: heap
  reactions_to_run :: "string set"
  uptake_secretion_reactions :: "addr dict"
  biomass_equation :: "addr option"

text \<open>The inner loop over the compounds of one reaction, from the flag so far.\<close>

fun scan_boundary :: "bool \<Rightarrow> compound list \<Rightarrow> bool" where
  "scan_boundary is_boundary [] = is_boundary"
| "scan_boundary is_boundary (c # cs) =
     scan_boundary (if uptake_secretion c then True else is_boundary) cs"

text \<open>
  The body of the outer loop for the key \<open>r\<close>, whose value \<^verbatim>\<open>reactions[r]\<close> is the
  address \<open>a\<close>: the loop runs over the keys of \<open>reactions\<close> itself, so the lookup is the
  item's value.
\<close>

definition classify_step :: "string \<times> addr \<Rightarrow> classified \<Rightarrow> classified" where
  "classify_step item s =
     (case item of (r, a) \<Rightarrow>
        if is_biomass (store s a) then s\<lparr>biomass_equation := Some a\<rparr>
        else if scan_boundary False (all_compounds (store s a)) then
          s\<lparr>store := (store s)(a := (store s a)\<lparr>is_uptake_secretion := True\<rparr>),
            uptake_secretion_reactions := AList.update r a (uptake_secretion_reactions s)\<rparr>
        else s\<lparr>reactions_to_run := insert r (reactions_to_run s)\<rparr>)"

fun classify_loop :: "addr dict \<Rightarrow> classified \<Rightarrow> classified" where
  "classify_loop [] s = s"
| "classify_loop (item # items) s = classify_loop items (classify_step item s)"

definition classify :: "heap \<Rightarrow> addr dict \<Rightarrow> classified" where
  "classify h reactions =
     classify_loop reactions
       \<lparr>store = h, reactions_to_run = {}, uptake_secretion_reactions = [],
        biomass_equation = None\<rparr>"

section \<open>Cell 9: filtering the compounds\<close>

text \<open>
  \<^verbatim>\<open>
  all_compounds = sbml.compounds
  filtered_compounds = {}
  for c in all_compounds:
      if not all_compounds[c].uptake_secretion:
          filtered_compounds[c] = all_compounds[c]
  \<close>
\<close>

fun filter_loop :: "compound dict \<Rightarrow> compound dict \<Rightarrow> compound dict" where
  "filter_loop [] filtered = filtered"
| "filter_loop ((c, v) # items) filtered =
     filter_loop items (if \<not> uptake_secretion v then AList.update c v filtered else filtered)"

definition filtered_compounds :: "compound dict \<Rightarrow> compound dict" where
  "filtered_compounds compounds = filter_loop compounds []"

section \<open>Cell 17: the lower bounds of the uptake and secretion reactions\<close>

text \<open>
  \<^verbatim>\<open>
  for u in uptake_secretion_reactions:
      is_media_component = False
      for c in uptake_secretion_reactions[u].all_compounds():
          if c in media:
              is_media_component = True
      if not is_media_component:
          reactions[u].lower_bound = 0.0
          uptake_secretion_reactions[u].lower_bound = 0.0
  \<close>
  \<^verbatim>\<open>reactions[u]\<close> is a lookup in another dictionary than the one the loop runs
  over, and raises when the key is missing.
\<close>

fun scan_media :: "media \<Rightarrow> bool \<Rightarrow> compound list \<Rightarrow> bool" where
  "scan_media m is_media_component [] = is_media_component"
| "scan_media m is_media_component (c # cs) =
     scan_media m (if c \<in> m then True else is_media_component) cs"

definition set_lower_bound :: "heap \<Rightarrow> addr \<Rightarrow> real \<Rightarrow> heap" where
  "set_lower_bound h a v = h(a := (h a)\<lparr>lower_bound := v\<rparr>)"

fun reconcile :: "addr dict \<Rightarrow> media \<Rightarrow> addr dict \<Rightarrow> heap \<Rightarrow> py_error + heap" where
  "reconcile reactions m [] h = Inr h"
| "reconcile reactions m ((u, a) # items) h =
     (if \<not> scan_media m False (all_compounds (h a)) then
        (case getitem reactions u of
           Inl e \<Rightarrow> Inl e
         | Inr ra \<Rightarrow>
             reconcile reactions m items (set_lower_bound (set_lower_bound h ra 0) a 0))
      else reconcile reactions m items h)"

section \<open>Cell 19: the call of the solver\<close>

text \<open>
  \<^verbatim>\<open>
  status, value, growth = PyFBA.fba.run_fba(filtered_compounds, reactions,
                                            reactions_to_run, media, biomass_equation,
                                            uptake_secretion_reactions)
  \<close>
  The solver is not part of the notebook. The model of the notebook ends with the
  arguments of this call, together with the store the solver reads the reactions from.
\<close>

record fba_call =
  fba_compounds :: "compound dict"
  fba_store :: heap
  fba_reactions :: "addr dict"
  fba_reactions_to_run :: "string set"
  fba_media :: media
  fba_biomass_equation :: "addr option"
  fba_uptake_secretion_reactions :: "addr dict"

text \<open>
  Cells 5, 9, 17 and 19 in sequence, from the parser's output (the store \<open>h\<close>, the
  dictionaries \<open>reactions\<close> and \<open>compounds\<close>) and the media. The result is the error a
  cell raised, or the call of the solver.
\<close>

definition notebook :: "heap \<Rightarrow> addr dict \<Rightarrow> compound dict \<Rightarrow> media \<Rightarrow> py_error + fba_call" where
  "notebook h reactions compounds m =
     (let s = classify h reactions;
          filtered = filtered_compounds compounds
      in case reconcile reactions m (uptake_secretion_reactions s) (store s) of
           Inl e \<Rightarrow> Inl e
         | Inr h' \<Rightarrow>
             Inr \<lparr>fba_compounds = filtered, fba_store = h', fba_reactions = reactions,
                  fba_reactions_to_run = reactions_to_run s, fba_media = m,
                  fba_biomass_equation = biomass_equation s,
                  fba_uptake_secretion_reactions = uptake_secretion_reactions s\<rparr>)"

section \<open>Vocabulary of the properties\<close>

text \<open>A reaction refers to a compound whose uptake and secretion flag is set.\<close>

abbreviation flagged :: "reaction \<Rightarrow> bool" where
  "flagged rxn \<equiv> \<exists>c\<in>set (all_compounds rxn). uptake_secretion c"

text \<open>A reaction refers to a compound that is in the media.\<close>

abbreviation in_media :: "media \<Rightarrow> reaction \<Rightarrow> bool" where
  "in_media m rxn \<equiv> \<exists>c\<in>set (all_compounds rxn). c \<in> m"

text \<open>
  The keys under which the dictionary \<open>reactions\<close> holds the object that
  \<^verbatim>\<open>biomass_equation\<close> refers to; no key when it is \<^verbatim>\<open>None\<close>.
\<close>

definition biomass_ids :: "addr dict \<Rightarrow> addr option \<Rightarrow> string set" where
  "biomass_ids reactions b = set (map fst (filter (\<lambda>(r, a). b = Some a) reactions))"

text \<open>The store after the lower bound of every reaction in \<open>A\<close> is set to zero.\<close>

definition zero_lower_bounds :: "addr set \<Rightarrow> heap \<Rightarrow> heap" where
  "zero_lower_bounds A h = (\<lambda>x. if x \<in> A then (h x)\<lparr>lower_bound := 0\<rparr> else h x)"

text \<open>
  The reactions cell 17 writes to: for every item \<open>(u, a)\<close> of the dictionary it runs
  over with no compound of \<open>a\<close> in the media, the reaction \<open>a\<close> and the reaction
  \<^verbatim>\<open>reactions[u]\<close>.
\<close>

definition clamped :: "addr dict \<Rightarrow> media \<Rightarrow> addr dict \<Rightarrow> heap \<Rightarrow> addr set" where
  "clamped reactions m items h =
     {x. \<exists>u a. (u, a) \<in> set items \<and> \<not> in_media m (h a) \<and>
               (x = a \<or> map_of reactions u = Some x)}"

text \<open>Cell 17 looks up a key that \<open>reactions\<close> does not have.\<close>

definition missing_key :: "addr dict \<Rightarrow> media \<Rightarrow> addr dict \<Rightarrow> heap \<Rightarrow> bool" where
  "missing_key reactions m items h =
     (\<exists>u a. (u, a) \<in> set items \<and> \<not> in_media m (h a) \<and> map_of reactions u = None)"

section \<open>Example models\<close>

text \<open>
  A small model in the shape of the SBML file of the notebook: an internal reaction, two
  exchange reactions (one of a media component, one not) and biomass reactions.
\<close>

definition atp :: compound where
  "atp = \<lparr>cname = ''ATP[c]'', uptake_secretion = False\<rparr>"

definition glc_e :: compound where
  "glc_e = \<lparr>cname = ''D-Glucose[e]'', uptake_secretion = False\<rparr>"

definition glc_b :: compound where
  "glc_b = \<lparr>cname = ''D-Glucose[b]'', uptake_secretion = True\<rparr>"

definition zn_e :: compound where
  "zn_e = \<lparr>cname = ''Zinc[e]'', uptake_secretion = False\<rparr>"

definition zn_b :: compound where
  "zn_b = \<lparr>cname = ''Zinc[b]'', uptake_secretion = True\<rparr>"

definition example_store :: heap where
  "example_store =
     (\<lambda>_. \<lparr>name = [], all_compounds = [], lower_bound = 0, upper_bound = 0,
            is_uptake_secretion = False\<rparr>)
     (0 := \<lparr>name = ''rxn00148'', all_compounds = [atp, glc_e], lower_bound = - 1000,
            upper_bound = 1000, is_uptake_secretion = True\<rparr>,
      1 := \<lparr>name = ''EX_glucose'', all_compounds = [glc_e, glc_b], lower_bound = - 1000,
            upper_bound = 1000, is_uptake_secretion = False\<rparr>,
      2 := \<lparr>name = ''EX_zinc'', all_compounds = [zn_e, zn_b], lower_bound = - 1000,
            upper_bound = 1000, is_uptake_secretion = False\<rparr>,
      3 := \<lparr>name = ''Biomass_Equation'', all_compounds = [atp], lower_bound = 0,
            upper_bound = 1000, is_uptake_secretion = False\<rparr>,
      4 := \<lparr>name = ''BIOMASS_EQUATION_2'', all_compounds = [atp, zn_b], lower_bound = 0,
            upper_bound = 1000, is_uptake_secretion = False\<rparr>)"

definition example_reactions :: "addr dict" where
  "example_reactions = [(''rxn00148'', 0), (''EX_glucose'', 1), (''EX_zinc'', 2), (''bio1'', 3)]"

definition example_compounds :: "compound dict" where
  "example_compounds =
     [(''ATP[c]'', atp), (''D-Glucose[e]'', glc_e), (''D-Glucose[b]'', glc_b),
      (''Zinc[e]'', zn_e), (''Zinc[b]'', zn_b)]"

definition example_media :: media where
  "example_media = {glc_e}"

text \<open>The same model without its biomass reaction.\<close>

definition example_reactions_no_biomass :: "addr dict" where
  "example_reactions_no_biomass = [(''rxn00148'', 0), (''EX_glucose'', 1), (''EX_zinc'', 2)]"

text \<open>
  A model whose only reference to a flagged compound is in its biomass reaction, and a
  model with no flagged compound at all.
\<close>

definition example_reactions_biomass_drain :: "addr dict" where
  "example_reactions_biomass_drain = [(''rxn00148'', 0), (''bio2'', 4)]"

definition example_compounds_biomass_drain :: "compound dict" where
  "example_compounds_biomass_drain =
     [(''ATP[c]'', atp), (''D-Glucose[e]'', glc_e), (''Zinc[b]'', zn_b)]"

definition example_reactions_internal :: "addr dict" where
  "example_reactions_internal = [(''rxn00148'', 0), (''bio1'', 3)]"

definition example_compounds_internal :: "compound dict" where
  "example_compounds_internal = [(''ATP[c]'', atp), (''D-Glucose[e]'', glc_e)]"

section \<open>The loops in closed form\<close>

subsection \<open>Cells 5 and 9\<close>

lemma scan_boundary_iff: "scan_boundary b cs = (b \<or> (\<exists>c\<in>set cs. uptake_secretion c))"
  by (induction cs arbitrary: b) auto

lemma scan_media_iff: "scan_media m b cs = (b \<or> (\<exists>c\<in>set cs. c \<in> m))"
  by (induction cs arbitrary: b) auto

lemma is_biomass_flag [simp]: "is_biomass (rxn\<lparr>is_uptake_secretion := b\<rparr>) = is_biomass rxn"
  by (simp add: is_biomass_def)

lemma is_biomass_bound [simp]: "is_biomass (rxn\<lparr>lower_bound := v\<rparr>) = is_biomass rxn"
  by (simp add: is_biomass_def)

lemma classify_step_frame:
  "store (classify_step item s) x =
     (store s x)\<lparr>is_uptake_secretion := is_uptake_secretion (store (classify_step item s) x)\<rparr>"
  by (cases item) (simp add: classify_step_def)

lemma classify_loop_frame:
  "store (classify_loop items s) x =
     (store s x)\<lparr>is_uptake_secretion := is_uptake_secretion (store (classify_loop items s) x)\<rparr>"
proof (induction items arbitrary: s)
  case Nil
  show ?case by simp
next
  case (Cons item items)
  let ?s1 = "classify_step item s"
  have "store (classify_loop items ?s1) x =
          (store ?s1 x)\<lparr>is_uptake_secretion := is_uptake_secretion (store (classify_loop items ?s1) x)\<rparr>"
    by (rule Cons.IH)
  also have "store ?s1 x = (store s x)\<lparr>is_uptake_secretion := is_uptake_secretion (store ?s1 x)\<rparr>"
    by (rule classify_step_frame)
  finally show ?case by simp
qed

lemma classify_loop_is_biomass [simp]:
  "is_biomass (store (classify_loop items s) x) = is_biomass (store s x)"
  by (subst classify_loop_frame) simp

lemma classify_loop_all_compounds [simp]:
  "all_compounds (store (classify_loop items s) x) = all_compounds (store s x)"
  by (subst classify_loop_frame) simp

lemma classify_step_is_biomass [simp]:
  "is_biomass (store (classify_step item s) x) = is_biomass (store s x)"
  by (subst classify_step_frame) simp

lemma classify_step_all_compounds [simp]:
  "all_compounds (store (classify_step item s) x) = all_compounds (store s x)"
  by (subst classify_step_frame) simp

lemma classify_step_run:
  "reactions_to_run (classify_step (r, a) s) =
     (if \<not> is_biomass (store s a) \<and> \<not> flagged (store s a)
      then insert r (reactions_to_run s) else reactions_to_run s)"
  by (simp add: classify_step_def scan_boundary_iff)

lemma classify_loop_run:
  "reactions_to_run (classify_loop items s) =
     reactions_to_run s \<union>
     {r. \<exists>a. (r, a) \<in> set items \<and> \<not> is_biomass (store s a) \<and> \<not> flagged (store s a)}"
proof (induction items arbitrary: s)
  case Nil
  show ?case by simp
next
  case (Cons item items)
  obtain r a where item: "item = (r, a)" by (cases item)
  show ?case
    unfolding item classify_loop.simps Cons.IH classify_step_run
    by auto
qed

lemma classify_step_usr:
  "uptake_secretion_reactions (classify_step (r, a) s) =
     (if \<not> is_biomass (store s a) \<and> flagged (store s a)
      then AList.update r a (uptake_secretion_reactions s) else uptake_secretion_reactions s)"
  by (simp add: classify_step_def scan_boundary_iff)

lemma classify_step_biomass:
  "biomass_equation (classify_step (r, a) s) =
     (if is_biomass (store s a) then Some a else biomass_equation s)"
  by (simp add: classify_step_def)

lemma classify_loop_biomass:
  "biomass_equation (classify_loop items s) =
     (case filter (\<lambda>(r, a). is_biomass (store s a)) items of
        [] \<Rightarrow> biomass_equation s
      | xs \<Rightarrow> Some (snd (last xs)))"
proof (induction items arbitrary: s)
  case Nil
  show ?case by simp
next
  case (Cons item items)
  obtain r a where item: "item = (r, a)" by (cases item)
  show ?case
    unfolding item classify_loop.simps Cons.IH classify_step_biomass
    by (simp split: list.splits)
qed

lemma classify_step_flag:
  "is_uptake_secretion (store (classify_step (r, a) s) x) =
     (is_uptake_secretion (store s x) \<or>
      (x = a \<and> \<not> is_biomass (store s a) \<and> flagged (store s a)))"
  by (simp add: classify_step_def scan_boundary_iff)

lemma classify_loop_flag:
  "is_uptake_secretion (store (classify_loop items s) x) =
     (is_uptake_secretion (store s x) \<or>
      ((\<exists>r. (r, x) \<in> set items) \<and> \<not> is_biomass (store s x) \<and> flagged (store s x)))"
proof (induction items arbitrary: s)
  case Nil
  show ?case by simp
next
  case (Cons item items)
  obtain r a where item: "item = (r, a)" by (cases item)
  show ?case
    unfolding item classify_loop.simps Cons.IH classify_step_flag
    by auto
qed

lemma update_fresh: "k \<notin> fst ` set al \<Longrightarrow> AList.update k v al = al @ [(k, v)]"
  by (induction al) auto

lemma classify_loop_usr_filter:
  "distinct (map fst items) \<Longrightarrow>
   fst ` set items \<inter> fst ` set (uptake_secretion_reactions s) = {} \<Longrightarrow>
   uptake_secretion_reactions (classify_loop items s) =
     uptake_secretion_reactions s @
     filter (\<lambda>(r, a). \<not> is_biomass (store s a) \<and> flagged (store s a)) items"
proof (induction items arbitrary: s)
  case Nil
  show ?case by simp
next
  case (Cons item items)
  obtain r a where item: "item = (r, a)" by (cases item)
  let ?s1 = "classify_step (r, a) s"
  from Cons.prems have d: "distinct (map fst items)" and r: "r \<notin> fst ` set items"
    and fresh: "r \<notin> fst ` set (uptake_secretion_reactions s)"
    and disj: "fst ` set items \<inter> fst ` set (uptake_secretion_reactions s) = {}"
    by (auto simp add: item)
  have disj1: "fst ` set items \<inter> fst ` set (uptake_secretion_reactions ?s1) = {}"
    using r disj by (auto simp add: classify_step_usr dom_update)
  show ?case
    unfolding item classify_loop.simps Cons.IH [OF d disj1]
    using fresh by (simp add: classify_step_usr update_fresh)
qed

lemma filter_loop_filter:
  "distinct (map fst items) \<Longrightarrow>
   fst ` set items \<inter> fst ` set filtered = {} \<Longrightarrow>
   filter_loop items filtered =
     filtered @ filter (\<lambda>(c, v). \<not> uptake_secretion v) items"
proof (induction items arbitrary: filtered)
  case Nil
  show ?case by simp
next
  case (Cons item items)
  obtain c v where item: "item = (c, v)" by (cases item)
  from Cons.prems have d: "distinct (map fst items)" and c: "c \<notin> fst ` set items"
    and fresh: "c \<notin> fst ` set filtered"
    and disj: "fst ` set items \<inter> fst ` set filtered = {}"
    by (auto simp add: item)
  have disj1: "fst ` set items \<inter> fst ` set (AList.update c v filtered) = {}"
    using c disj by (auto simp add: dom_update)
  show ?case
  proof (cases "uptake_secretion v")
    case True
    then show ?thesis
      using Cons.IH [OF d disj] by (simp add: item)
  next
    case False
    then show ?thesis
      using Cons.IH [OF d disj1] fresh by (simp add: item update_fresh)
  qed
qed

subsection \<open>Cell 17\<close>

lemma zero_lower_bounds_empty [simp]: "zero_lower_bounds {} h = h"
  by (simp add: zero_lower_bounds_def)

lemma zero_lower_bounds_twice:
  "zero_lower_bounds A (zero_lower_bounds B h) = zero_lower_bounds (A \<union> B) h"
  by (auto simp add: zero_lower_bounds_def fun_eq_iff)

lemma set_lower_bound_zero:
  "set_lower_bound (set_lower_bound h ra 0) a 0 = zero_lower_bounds {a, ra} h"
  by (auto simp add: set_lower_bound_def zero_lower_bounds_def fun_eq_iff)

lemma all_compounds_zero_lower_bounds [simp]:
  "all_compounds (zero_lower_bounds A h x) = all_compounds (h x)"
  by (simp add: zero_lower_bounds_def)

lemma clamped_zero_lower_bounds [simp]:
  "clamped reactions m items (zero_lower_bounds A h) = clamped reactions m items h"
  by (simp add: clamped_def)

lemma missing_key_zero_lower_bounds [simp]:
  "missing_key reactions m items (zero_lower_bounds A h) = missing_key reactions m items h"
  by (simp add: missing_key_def)

lemma clamped_Cons:
  "clamped reactions m ((u, a) # items) h =
     (if in_media m (h a) then {} else insert a {x. map_of reactions u = Some x}) \<union>
     clamped reactions m items h"
  by (auto simp add: clamped_def)

lemma missing_key_Cons:
  "missing_key reactions m ((u, a) # items) h =
     ((\<not> in_media m (h a) \<and> map_of reactions u = None) \<or> missing_key reactions m items h)"
  by (auto simp add: missing_key_def)

lemma reconcile_closed_form:
  "reconcile reactions m items h =
     (if missing_key reactions m items h then Inl KeyError
      else Inr (zero_lower_bounds (clamped reactions m items h) h))"
proof (induction items arbitrary: h)
  case Nil
  show ?case by (simp add: missing_key_def clamped_def)
next
  case (Cons item items)
  obtain u a where item: "item = (u, a)" by (cases item)
  show ?case
  proof (cases "in_media m (h a)")
    case True
    then show ?thesis
      by (simp add: item scan_media_iff Cons.IH clamped_Cons missing_key_Cons)
  next
    case False
    note out = this
    show ?thesis
    proof (cases "map_of reactions u")
      case None
      with out show ?thesis
        by (simp add: item scan_media_iff getitem_def missing_key_Cons)
    next
      case (Some ra)
      have "{x. ra = x} = {ra}" by auto
      with out Some show ?thesis
        by (simp add: item scan_media_iff getitem_def Cons.IH set_lower_bound_zero
            zero_lower_bounds_twice clamped_Cons missing_key_Cons Un_commute insert_commute)
    qed
  qed
qed

subsection \<open>The cells on the parser's output\<close>

lemma classify_run:
  "reactions_to_run (classify h reactions) =
     {r. \<exists>a. (r, a) \<in> set reactions \<and> \<not> is_biomass (h a) \<and> \<not> flagged (h a)}"
  by (simp add: classify_def classify_loop_run)

lemma classify_usr:
  "distinct (map fst reactions) \<Longrightarrow>
   uptake_secretion_reactions (classify h reactions) =
     filter (\<lambda>(r, a). \<not> is_biomass (h a) \<and> flagged (h a)) reactions"
  by (simp add: classify_def classify_loop_usr_filter)

lemma classify_biomass:
  "biomass_equation (classify h reactions) =
     (case filter (\<lambda>(r, a). is_biomass (h a)) reactions of
        [] \<Rightarrow> None
      | xs \<Rightarrow> Some (snd (last xs)))"
  by (simp add: classify_def classify_loop_biomass split: list.splits)

lemma classify_flag:
  "is_uptake_secretion (store (classify h reactions) x) =
     (is_uptake_secretion (h x) \<or>
      ((\<exists>r. (r, x) \<in> set reactions) \<and> \<not> is_biomass (h x) \<and> flagged (h x)))"
  by (simp add: classify_def classify_loop_flag)

lemma classify_frame:
  "store (classify h reactions) x =
     (h x)\<lparr>is_uptake_secretion := is_uptake_secretion (store (classify h reactions) x)\<rparr>"
  unfolding classify_def by (subst classify_loop_frame) simp

lemma classify_all_compounds [simp]:
  "all_compounds (store (classify h reactions) x) = all_compounds (h x)"
  by (simp add: classify_def)

lemma classify_is_biomass [simp]:
  "is_biomass (store (classify h reactions) x) = is_biomass (h x)"
  by (simp add: classify_def)

lemma classify_bounds:
  "lower_bound (store (classify h reactions) x) = lower_bound (h x)"
  "upper_bound (store (classify h reactions) x) = upper_bound (h x)"
  by (subst classify_frame, simp)+

lemma filtered_compounds_filter:
  "distinct (map fst compounds) \<Longrightarrow>
   filtered_compounds compounds = filter (\<lambda>(c, v). \<not> uptake_secretion v) compounds"
  by (simp add: filtered_compounds_def filter_loop_filter)

lemma reconcile_submapping:
  assumes sub: "\<forall>(u, a)\<in>set boundary. map_of reactions u = Some a"
  shows "reconcile reactions m boundary h =
           Inr (zero_lower_bounds {a. \<exists>u. (u, a) \<in> set boundary \<and> \<not> in_media m (h a)} h)"
proof -
  have "\<not> missing_key reactions m boundary h"
    using sub by (auto simp add: missing_key_def)
  moreover have "clamped reactions m boundary h =
      {a. \<exists>u. (u, a) \<in> set boundary \<and> \<not> in_media m (h a)}"
    using sub by (fastforce simp add: clamped_def)
  ultimately show ?thesis
    by (simp add: reconcile_closed_form)
qed

lemma classify_submapping:
  assumes "distinct (map fst reactions)"
  shows "\<forall>(u, a)\<in>set (uptake_secretion_reactions (classify h reactions)).
           map_of reactions u = Some a"
  using assms by (auto simp add: classify_usr)

lemma classify_run_filter:
  "reactions_to_run (classify h reactions) =
     fst ` set (filter (\<lambda>(r, a). \<not> is_biomass (h a) \<and> \<not> flagged (h a)) reactions)"
  unfolding classify_run by force

lemma classify_usr_mem:
  "distinct (map fst reactions) \<Longrightarrow>
   (r, a) \<in> set (uptake_secretion_reactions (classify h reactions)) \<longleftrightarrow>
     (r, a) \<in> set reactions \<and> \<not> is_biomass (h a) \<and> flagged (h a)"
  by (auto simp add: classify_usr)

lemma classify_usr_key:
  assumes "distinct (map fst reactions)" and "(r, a) \<in> set reactions"
  shows "r \<in> fst ` set (uptake_secretion_reactions (classify h reactions)) \<longleftrightarrow>
           \<not> is_biomass (h a) \<and> flagged (h a)"
proof
  assume "r \<in> fst ` set (uptake_secretion_reactions (classify h reactions))"
  then obtain a' where a': "(r, a') \<in> set (uptake_secretion_reactions (classify h reactions))"
    by force
  then have "(r, a') \<in> set reactions"
    by (simp add: classify_usr_mem [OF assms(1)])
  with assms have "a' = a"
    by (blast dest: eq_key_imp_eq_value)
  with a' show "\<not> is_biomass (h a) \<and> flagged (h a)"
    by (simp add: classify_usr_mem [OF assms(1)])
next
  assume "\<not> is_biomass (h a) \<and> flagged (h a)"
  with assms(2) have "(r, a) \<in> set (uptake_secretion_reactions (classify h reactions))"
    by (simp add: classify_usr_mem [OF assms(1)])
  then show "r \<in> fst ` set (uptake_secretion_reactions (classify h reactions))"
    by force
qed

lemma classify_run_key:
  assumes "distinct (map fst reactions)" and "(r, a) \<in> set reactions"
  shows "r \<in> reactions_to_run (classify h reactions) \<longleftrightarrow>
           \<not> is_biomass (h a) \<and> \<not> flagged (h a)"
proof -
  have "a' = a" if "(r, a') \<in> set reactions" for a'
    using assms that by (blast dest: eq_key_imp_eq_value)
  with assms(2) show ?thesis
    unfolding classify_run by blast
qed

subsection \<open>Cell 9 without the distinctness of the keys\<close>

lemma set_update_subset: "set (AList.update k v al) \<subseteq> insert (k, v) (set al)"
  by (induction al) auto

lemma filter_loop_subset: "set (filter_loop items filtered) \<subseteq> set filtered \<union> set items"
proof (induction items arbitrary: filtered)
  case Nil
  show ?case by simp
next
  case (Cons item items)
  obtain c v where item: "item = (c, v)" by (cases item)
  show ?case
    using Cons.IH [of filtered] Cons.IH [of "AList.update c v filtered"]
      set_update_subset [of c v filtered]
    by (auto simp add: item)
qed

lemma filtered_compounds_subset: "set (filtered_compounds compounds) \<subseteq> set compounds"
  using filter_loop_subset [of compounds "[]"] by (simp add: filtered_compounds_def)

subsection \<open>The notebook as a whole\<close>

text \<open>
  On a dictionary of reactions, cell 17 finds every key it looks up, and the notebook
  reaches the call of the solver.
\<close>

lemma notebook_runs:
  assumes "distinct (map fst reactions)"
  shows "notebook h reactions compounds m =
     Inr \<lparr>fba_compounds = filtered_compounds compounds,
          fba_store =
            zero_lower_bounds
              {a. \<exists>u. (u, a) \<in> set (uptake_secretion_reactions (classify h reactions)) \<and>
                      \<not> in_media m (h a)}
              (store (classify h reactions)),
          fba_reactions = reactions,
          fba_reactions_to_run = reactions_to_run (classify h reactions),
          fba_media = m,
          fba_biomass_equation = biomass_equation (classify h reactions),
          fba_uptake_secretion_reactions = uptake_secretion_reactions (classify h reactions)\<rparr>"
  unfolding notebook_def Let_def
  by (subst reconcile_submapping [OF classify_submapping [OF assms]]) simp

lemma zero_lower_bounds_frame:
  "zero_lower_bounds A h x = (h x)\<lparr>lower_bound := lower_bound (zero_lower_bounds A h x)\<rparr>"
  by (simp add: zero_lower_bounds_def)

subsection \<open>What the model leaves open\<close>

text \<open>
  The substring test is the one of the list library. Cell 17 depends on the items of the
  dictionary it runs over, not on the order in which the dictionary yields them: the order
  of a Python 2 dictionary is the order of its hash table, and the model's order (that of
  insertion) stands for any.
\<close>

lemma contains_sublist: "contains sub s = sublist sub s"
  by (induction s) (simp_all add: sublist_Cons_right)

lemma clamped_set: "set items = set items' \<Longrightarrow> clamped reactions m items h = clamped reactions m items' h"
  by (simp add: clamped_def)

lemma missing_key_set:
  "set items = set items' \<Longrightarrow> missing_key reactions m items h = missing_key reactions m items' h"
  by (simp add: missing_key_def)

lemma reconcile_order:
  "set items = set items' \<Longrightarrow> reconcile reactions m items h = reconcile reactions m items' h"
  by (simp add: reconcile_closed_form clamped_set [of items items'] missing_key_set [of items items'])

subsection \<open>The example models, evaluated\<close>

lemmas example_defs =
  example_store_def example_reactions_def example_compounds_def example_media_def
  example_reactions_no_biomass_def example_reactions_biomass_drain_def
  example_compounds_biomass_drain_def example_reactions_internal_def
  example_compounds_internal_def atp_def glc_e_def glc_b_def zn_e_def zn_b_def

lemma example_is_biomass [simp]:
  "\<not> is_biomass (example_store 0)"
  "\<not> is_biomass (example_store (Suc 0))"
  "\<not> is_biomass (example_store 2)"
  "is_biomass (example_store 3)"
  "is_biomass (example_store 4)"
  by (simp_all add: is_biomass_def lower_def lower_char_def example_store_def)

lemma example_flagged [simp]:
  "\<not> flagged (example_store 0)"
  "flagged (example_store (Suc 0))"
  "flagged (example_store 2)"
  "\<not> flagged (example_store 3)"
  "flagged (example_store 4)"
  by (simp_all add: example_defs)

lemma example_distinct [simp]:
  "distinct (map fst example_reactions)"
  "distinct (map fst example_reactions_no_biomass)"
  "distinct (map fst example_reactions_biomass_drain)"
  "distinct (map fst example_reactions_internal)"
  "distinct (map fst example_compounds)"
  "distinct (map fst example_compounds_biomass_drain)"
  "distinct (map fst example_compounds_internal)"
  by (simp_all add: example_defs)

lemma example_boundary:
  "uptake_secretion_reactions (classify example_store example_reactions) =
     [(''EX_glucose'', 1), (''EX_zinc'', 2)]"
  by (subst classify_usr) (simp_all add: example_reactions_def)

lemma example_run:
  "reactions_to_run (classify example_store example_reactions) = {''rxn00148''}"
  unfolding classify_run_filter example_reactions_def by simp

lemma example_biomass:
  "biomass_equation (classify example_store example_reactions) = Some 3"
  unfolding classify_biomass example_reactions_def by simp

lemma example_in_media [simp]:
  "in_media example_media (example_store (Suc 0))"
  "\<not> in_media example_media (example_store 2)"
  by (simp_all add: example_defs)

section \<open>The claims\<close>

text \<open>
  In every statement, a dictionary is a list of items with distinct keys, \<open>h\<close> is the
  store the parser returns, and \<open>classify h reactions\<close> is the state after cell 5.
\<close>

subsection \<open>C1: the classes partition the reaction ids\<close>

text \<open>
  Claim C1. On every model, that is a dictionary of reactions at most one of whose reactions
  has a name that matches the biomass marker (the data model has at most one biomass
  reaction per model), cell 5 partitions the reaction ids: the keys of
  \<^verbatim>\<open>uptake_secretion_reactions\<close>, the set \<^verbatim>\<open>reactions_to_run\<close> and the ids of
  the biomass reaction are pairwise disjoint, their union is the set of all keys of
  \<^verbatim>\<open>reactions\<close>, and the ids of the biomass reaction are one id, or none when
  \<^verbatim>\<open>biomass_equation\<close> is \<^verbatim>\<open>None\<close>.
\<close>

theorem classify_partition:
  fixes h :: heap and reactions :: "addr dict"
  assumes "distinct (map fst reactions)"
    and "length (filter (\<lambda>(r, a). is_biomass (h a)) reactions) \<le> 1"
  defines "s \<equiv> classify h reactions"
  defines "boundary \<equiv> fst ` set (uptake_secretion_reactions s)"
  defines "biomass \<equiv> biomass_ids reactions (biomass_equation s)"
  shows "boundary \<inter> reactions_to_run s = {} \<and>
         boundary \<inter> biomass = {} \<and>
         reactions_to_run s \<inter> biomass = {} \<and>
         boundary \<union> reactions_to_run s \<union> biomass = fst ` set reactions \<and>
         ((biomass_equation s = None \<and> biomass = {}) \<or> (\<exists>r. biomass = {r}))"
proof -
  note d = assms(1)
  have val: "a = a'" if "(r, a) \<in> set reactions" "(r, a') \<in> set reactions" for r a a'
    using d that by (rule eq_key_imp_eq_value)
  have bd: "boundary = {r. \<exists>a. (r, a) \<in> set reactions \<and> \<not> is_biomass (h a) \<and> flagged (h a)}"
    unfolding boundary_def s_def classify_usr [OF d] by force
  have run: "reactions_to_run s =
      {r. \<exists>a. (r, a) \<in> set reactions \<and> \<not> is_biomass (h a) \<and> \<not> flagged (h a)}"
    unfolding s_def by (rule classify_run)
  have keys: "fst ` set reactions = {r. \<exists>a. (r, a) \<in> set reactions}"
    by force
  let ?bs = "filter (\<lambda>(r, a). is_biomass (h a)) reactions"
  have mem: "(r, a) \<in> set ?bs \<longleftrightarrow> (r, a) \<in> set reactions \<and> is_biomass (h a)" for r a
    by auto
  consider "?bs = []" | r0 b where "?bs = [(r0, b)]"
    using assms(2) by (cases ?bs) (auto simp add: length_Suc_conv)
  then show ?thesis
  proof cases
    case 1
    then have none: "biomass_equation s = None"
      by (simp add: s_def classify_biomass)
    have nobio: "\<not> is_biomass (h a)" if "(r, a) \<in> set reactions" for r a
      using mem [of r a] that 1 by simp
    have bio: "biomass = {}"
      by (simp add: biomass_def none biomass_ids_def)
    show ?thesis
      unfolding bd run bio keys using nobio none val by blast
  next
    case 2
    then have some: "biomass_equation s = Some b"
      by (simp add: s_def classify_biomass)
    have only: "(r, a) \<in> set reactions \<and> is_biomass (h a) \<longleftrightarrow> r = r0 \<and> a = b" for r a
      using mem [of r a] 2 by auto
    have "biomass = {r. (r, b) \<in> set reactions}"
      by (auto simp add: biomass_def some biomass_ids_def image_iff)
    also have "\<dots> = {r0}"
      using only by blast
    finally have bio: "biomass = {r0}" .
    have r0: "(r0, b) \<in> set reactions" "is_biomass (h b)"
      using only [of r0 b] by simp_all
    have a1: "boundary \<inter> reactions_to_run s = {}"
      unfolding bd run using val by blast
    have a2: "boundary \<inter> biomass = {}"
      unfolding bd bio using val r0 by blast
    have a3: "reactions_to_run s \<inter> biomass = {}"
      unfolding run bio using val r0 by blast
    have a4: "boundary \<union> reactions_to_run s \<union> biomass = fst ` set reactions"
      unfolding bd run bio keys using only r0 by blast
    show ?thesis
      using a1 a2 a3 a4 bio by blast
  qed
qed

theorem classify_partition_witness:
  "distinct (map fst example_reactions) \<and>
   length (filter (\<lambda>(r, a). is_biomass (example_store a)) example_reactions) \<le> 1 \<and>
   fst ` set (uptake_secretion_reactions (classify example_store example_reactions)) \<union>
     reactions_to_run (classify example_store example_reactions) \<union>
     biomass_ids example_reactions (biomass_equation (classify example_store example_reactions)) =
   fst ` set example_reactions \<and>
   biomass_ids example_reactions (biomass_equation (classify example_store example_reactions)) =
     {''bio1''}"
proof -
  have d: "distinct (map fst example_reactions)"
    by simp
  have one: "length (filter (\<lambda>(r, a). is_biomass (example_store a)) example_reactions) \<le> 1"
    by (simp add: example_reactions_def)
  have bio: "biomass_ids example_reactions
      (biomass_equation (classify example_store example_reactions)) = {''bio1''}"
    by (subst example_biomass) (simp add: biomass_ids_def example_reactions_def)
  have "fst ` set (uptake_secretion_reactions (classify example_store example_reactions)) \<union>
      reactions_to_run (classify example_store example_reactions) \<union>
      biomass_ids example_reactions (biomass_equation (classify example_store example_reactions)) =
    fst ` set example_reactions"
    using classify_partition [OF d one] by (elim conjE) assumption
  then show ?thesis
    by (intro conjI d one bio)
qed

subsection \<open>C2: the bounds of a boundary reaction after cell 17\<close>

text \<open>
  Claim C2. For every reaction \<open>a\<close> that cell 5 put into
  \<^verbatim>\<open>uptake_secretion_reactions\<close> (under the key \<open>u\<close>) and every media, cell 17 ends
  without an error, in a store \<open>h'\<close> where: if no compound of the reaction is in the
  media, its lower bound is 0, whatever it was; if a compound of the reaction is in the
  media, its lower and upper bounds are the ones it had before cell 17.
\<close>

theorem reconcile_boundary_bounds:
  fixes h :: heap and reactions :: "addr dict" and m :: media
  assumes "distinct (map fst reactions)"
  defines "s \<equiv> classify h reactions"
  assumes "(u, a) \<in> set (uptake_secretion_reactions s)"
  shows "\<exists>h'. reconcile reactions m (uptake_secretion_reactions s) (store s) = Inr h' \<and>
           (\<not> in_media m (store s a) \<longrightarrow> lower_bound (h' a) = 0) \<and>
           (in_media m (store s a) \<longrightarrow>
              lower_bound (h' a) = lower_bound (store s a) \<and>
              upper_bound (h' a) = upper_bound (store s a))"
proof -
  let ?A = "{a. \<exists>u. (u, a) \<in> set (uptake_secretion_reactions s) \<and> \<not> in_media m (store s a)}"
  have sub: "\<forall>(u, a)\<in>set (uptake_secretion_reactions s). map_of reactions u = Some a"
    unfolding s_def using assms(1) by (rule classify_submapping)
  have run: "reconcile reactions m (uptake_secretion_reactions s) (store s) =
      Inr (zero_lower_bounds ?A (store s))"
    using sub by (rule reconcile_submapping)
  have "lower_bound (zero_lower_bounds ?A (store s) a) = 0" if "\<not> in_media m (store s a)"
  proof -
    from that assms(3) have "a \<in> ?A" by blast
    then show ?thesis unfolding zero_lower_bounds_def by (simp only: if_True) simp
  qed
  moreover have "zero_lower_bounds ?A (store s) a = store s a" if "in_media m (store s a)"
  proof -
    from that have "a \<notin> ?A" by blast
    then show ?thesis unfolding zero_lower_bounds_def by (simp only: if_False)
  qed
  ultimately show ?thesis
    unfolding run by (intro exI [of _ "zero_lower_bounds ?A (store s)"] conjI refl impI) simp_all
qed

theorem reconcile_boundary_bounds_witness:
  "(''EX_zinc'', 2) \<in> set (uptake_secretion_reactions (classify example_store example_reactions)) \<and>
   (''EX_glucose'', 1) \<in> set (uptake_secretion_reactions (classify example_store example_reactions)) \<and>
   lower_bound (store (classify example_store example_reactions) 2) = - 1000 \<and>
   lower_bound (store (classify example_store example_reactions) 1) = - 1000 \<and>
   upper_bound (store (classify example_store example_reactions) 1) = 1000 \<and>
   (\<exists>h'. reconcile example_reactions example_media
            (uptake_secretion_reactions (classify example_store example_reactions))
            (store (classify example_store example_reactions)) = Inr h' \<and>
         lower_bound (h' 2) = 0 \<and> lower_bound (h' 1) = - 1000 \<and> upper_bound (h' 1) = 1000)"
proof -
  let ?s = "classify example_store example_reactions"
  have d: "distinct (map fst example_reactions)"
    by simp
  have z: "(''EX_zinc'', 2) \<in> set (uptake_secretion_reactions ?s)"
    and g: "(''EX_glucose'', 1) \<in> set (uptake_secretion_reactions ?s)"
    by (simp_all add: example_boundary)
  have out: "\<not> in_media example_media (store ?s 2)" and inn: "in_media example_media (store ?s 1)"
    by simp_all
  have b: "lower_bound (store ?s 2) = - 1000" "lower_bound (store ?s 1) = - 1000"
    "upper_bound (store ?s 1) = 1000"
    by (simp_all add: classify_bounds example_store_def)
  from reconcile_boundary_bounds [OF d z, of example_media] out
  obtain h' where run: "reconcile example_reactions example_media
      (uptake_secretion_reactions ?s) (store ?s) = Inr h'" and zero: "lower_bound (h' 2) = 0"
    by blast
  from reconcile_boundary_bounds [OF d g, of example_media] inn run
  have "lower_bound (h' 1) = lower_bound (store ?s 1) \<and> upper_bound (h' 1) = upper_bound (store ?s 1)"
    by auto
  with b have same: "lower_bound (h' 1) = - 1000" "upper_bound (h' 1) = 1000"
    by simp_all
  from run zero same have "\<exists>h'. reconcile example_reactions example_media
      (uptake_secretion_reactions ?s) (store ?s) = Inr h' \<and>
      lower_bound (h' 2) = 0 \<and> lower_bound (h' 1) = - 1000 \<and> upper_bound (h' 1) = 1000"
    by blast
  then show ?thesis
    by (intro conjI z g b)
qed

subsection \<open>C3: boundary if and only if a compound is flagged\<close>

text \<open>
  Claim C3. For every item \<open>(r, a)\<close> of \<^verbatim>\<open>reactions\<close> whose name does not match the
  biomass marker: cell 5 puts it into \<^verbatim>\<open>uptake_secretion_reactions\<close> if and only if
  a compound of the reaction has its \<^verbatim>\<open>uptake_secretion\<close> flag set; when it does, the
  reaction's own \<^verbatim>\<open>is_uptake_secretion\<close> is true afterwards; when it does not, \<open>r\<close>
  is in \<^verbatim>\<open>reactions_to_run\<close>.
\<close>

theorem classify_boundary_iff:
  fixes h :: heap and reactions :: "addr dict"
  assumes "distinct (map fst reactions)" and "(r, a) \<in> set reactions"
    and "\<not> is_biomass (h a)"
  defines "s \<equiv> classify h reactions"
  shows "((r, a) \<in> set (uptake_secretion_reactions s) \<longleftrightarrow> flagged (h a)) \<and>
         (r \<in> fst ` set (uptake_secretion_reactions s) \<longleftrightarrow> flagged (h a)) \<and>
         (r \<in> fst ` set (uptake_secretion_reactions s) \<longrightarrow> is_uptake_secretion (store s a)) \<and>
         (r \<notin> fst ` set (uptake_secretion_reactions s) \<longrightarrow> r \<in> reactions_to_run s) \<and>
         (r \<in> reactions_to_run s \<longleftrightarrow> \<not> flagged (h a))"
proof -
  have item: "(r, a) \<in> set (uptake_secretion_reactions s) \<longleftrightarrow> flagged (h a)"
    unfolding s_def using assms(2,3) by (simp add: classify_usr_mem [OF assms(1)])
  have key: "r \<in> fst ` set (uptake_secretion_reactions s) \<longleftrightarrow> flagged (h a)"
    unfolding s_def using assms(3) by (simp add: classify_usr_key [OF assms(1,2)])
  have run: "r \<in> reactions_to_run s \<longleftrightarrow> \<not> flagged (h a)"
    unfolding s_def using assms(3) by (simp add: classify_run_key [OF assms(1,2)])
  have flag: "is_uptake_secretion (store s a)" if "flagged (h a)"
    unfolding s_def classify_flag using that assms(2,3) by blast
  show ?thesis
    by (simp add: item key run flag)
qed

theorem classify_boundary_iff_witness:
  "(''EX_zinc'', 2) \<in> set example_reactions \<and>
   \<not> is_biomass (example_store 2) \<and>
   flagged (example_store 2) \<and>
   \<not> is_uptake_secretion (example_store 2) \<and>
   (''EX_zinc'', 2) \<in> set (uptake_secretion_reactions (classify example_store example_reactions)) \<and>
   is_uptake_secretion (store (classify example_store example_reactions) 2) \<and>
   ''EX_zinc'' \<notin> reactions_to_run (classify example_store example_reactions)"
proof -
  have d: "distinct (map fst example_reactions)"
    by simp
  have mem: "(''EX_zinc'', 2) \<in> set example_reactions"
    by (simp add: example_reactions_def)
  have nb: "\<not> is_biomass (example_store 2)" and fl: "flagged (example_store 2)"
    by simp_all
  have nf: "\<not> is_uptake_secretion (example_store 2)"
    by (simp add: example_store_def)
  from classify_boundary_iff [where h = example_store and a = 2, OF d mem nb] fl
  have "(''EX_zinc'', 2) \<in> set (uptake_secretion_reactions (classify example_store example_reactions))"
    and "is_uptake_secretion (store (classify example_store example_reactions) 2)"
    and "''EX_zinc'' \<notin> reactions_to_run (classify example_store example_reactions)"
    by blast+
  then show ?thesis
    by (intro conjI mem nb fl nf)
qed

subsection \<open>C4: the biomass reaction\<close>

text \<open>
  Claim C4. \<^verbatim>\<open>biomass_equation\<close> is \<^verbatim>\<open>None\<close> exactly when no reaction's name
  matches the marker \<^verbatim>\<open>biomass_equation\<close> in any letter case; when a single reaction
  matches, \<^verbatim>\<open>biomass_equation\<close> is that reaction; and the reaction that
  \<^verbatim>\<open>biomass_equation\<close> refers to matches the marker, is a reaction of the model, is
  no value of \<^verbatim>\<open>uptake_secretion_reactions\<close>, and none of its ids is a key of
  \<^verbatim>\<open>uptake_secretion_reactions\<close> or a member of \<^verbatim>\<open>reactions_to_run\<close>.
\<close>

theorem classify_biomass_equation:
  fixes h :: heap and reactions :: "addr dict"
  assumes "distinct (map fst reactions)"
  defines "s \<equiv> classify h reactions"
  shows "(biomass_equation s = None \<longleftrightarrow> (\<forall>(r, a)\<in>set reactions. \<not> is_biomass (h a))) \<and>
         (\<forall>r a. (r, a) \<in> set reactions \<longrightarrow> is_biomass (h a) \<longrightarrow>
                (\<forall>(r', a')\<in>set reactions. is_biomass (h a') \<longrightarrow> a' = a) \<longrightarrow>
                biomass_equation s = Some a) \<and>
         (\<forall>b. biomass_equation s = Some b \<longrightarrow>
              is_biomass (h b) \<and> b \<in> snd ` set reactions \<and>
              b \<notin> snd ` set (uptake_secretion_reactions s) \<and>
              (\<forall>r. (r, b) \<in> set reactions \<longrightarrow>
                   r \<notin> fst ` set (uptake_secretion_reactions s) \<and> r \<notin> reactions_to_run s))"
proof -
  let ?bs = "filter (\<lambda>(r, a). is_biomass (h a)) reactions"
  have bio: "biomass_equation s = (case ?bs of [] \<Rightarrow> None | xs \<Rightarrow> Some (snd (last xs)))"
    unfolding s_def by (rule classify_biomass)
  have none: "biomass_equation s = None \<longleftrightarrow> (\<forall>(r, a)\<in>set reactions. \<not> is_biomass (h a))"
  proof -
    have "biomass_equation s = None \<longleftrightarrow> ?bs = []"
      unfolding bio by (simp split: list.splits)
    also have "\<dots> \<longleftrightarrow> (\<forall>(r, a)\<in>set reactions. \<not> is_biomass (h a))"
      by (auto simp add: filter_empty_conv)
    finally show ?thesis .
  qed
  have last_in: "is_biomass (h b) \<and> (\<exists>r. (r, b) \<in> set reactions)"
    if "biomass_equation s = Some b" for b
  proof -
    from that have ne: "?bs \<noteq> []" and b: "b = snd (last ?bs)"
      unfolding bio by (auto split: list.splits)
    from ne have "last ?bs \<in> set ?bs"
      by (rule last_in_set)
    then have "(fst (last ?bs), b) \<in> set ?bs"
      by (simp add: b)
    then show ?thesis
      by auto
  qed
  have single: "\<forall>r a. (r, a) \<in> set reactions \<longrightarrow> is_biomass (h a) \<longrightarrow>
      (\<forall>(r', a')\<in>set reactions. is_biomass (h a') \<longrightarrow> a' = a) \<longrightarrow>
      biomass_equation s = Some a"
  proof (intro allI impI)
    fix r a
    assume ra: "(r, a) \<in> set reactions" and a: "is_biomass (h a)"
      and only: "\<forall>(r', a')\<in>set reactions. is_biomass (h a') \<longrightarrow> a' = a"
    from ra a have "\<not> (\<forall>(r, a)\<in>set reactions. \<not> is_biomass (h a))"
      by blast
    then obtain b where b: "biomass_equation s = Some b"
      using none by (cases "biomass_equation s") auto
    from last_in [OF b] obtain r' where "(r', b) \<in> set reactions" "is_biomass (h b)"
      by blast
    with only have "b = a"
      by blast
    with b show "biomass_equation s = Some a" by simp
  qed
  have out: "\<forall>b. biomass_equation s = Some b \<longrightarrow>
      is_biomass (h b) \<and> b \<in> snd ` set reactions \<and>
      b \<notin> snd ` set (uptake_secretion_reactions s) \<and>
      (\<forall>r. (r, b) \<in> set reactions \<longrightarrow>
           r \<notin> fst ` set (uptake_secretion_reactions s) \<and> r \<notin> reactions_to_run s)"
  proof (intro allI impI conjI)
    fix b
    assume some: "biomass_equation s = Some b"
    from last_in [OF some] obtain r where r: "(r, b) \<in> set reactions" and b: "is_biomass (h b)"
      by blast
    show "is_biomass (h b)" by (rule b)
    from r show "b \<in> snd ` set reactions" by force
    show "b \<notin> snd ` set (uptake_secretion_reactions s)"
    proof
      assume "b \<in> snd ` set (uptake_secretion_reactions s)"
      then obtain u where "(u, b) \<in> set (uptake_secretion_reactions s)"
        by force
      then have "\<not> is_biomass (h b)"
        unfolding s_def by (simp add: classify_usr_mem [OF assms(1)])
      with b show False by simp
    qed
  next
    fix b r
    assume some: "biomass_equation s = Some b" and r: "(r, b) \<in> set reactions"
    from last_in [OF some] have b: "is_biomass (h b)" by simp
    show "r \<notin> fst ` set (uptake_secretion_reactions s)"
      unfolding s_def using b by (simp add: classify_usr_key [OF assms(1) r])
    show "r \<notin> reactions_to_run s"
      unfolding s_def using b by (simp add: classify_run_key [OF assms(1) r])
  qed
  show ?thesis
    by (intro conjI none single out)
qed

theorem classify_biomass_equation_witness:
  "(''bio1'', 3) \<in> set example_reactions \<and>
   is_biomass (example_store 3) \<and>
   biomass_equation (classify example_store example_reactions) = Some 3 \<and>
   ''bio1'' \<notin> fst ` set (uptake_secretion_reactions (classify example_store example_reactions)) \<and>
   ''bio1'' \<notin> reactions_to_run (classify example_store example_reactions)"
proof -
  let ?s = "classify example_store example_reactions"
  have d: "distinct (map fst example_reactions)"
    by simp
  have mem: "(''bio1'', 3) \<in> set example_reactions"
    by (simp add: example_reactions_def)
  have bio: "is_biomass (example_store 3)"
    by simp
  have only: "\<forall>(r', a')\<in>set example_reactions. is_biomass (example_store a') \<longrightarrow> a' = 3"
    by (simp add: example_reactions_def)
  note t = classify_biomass_equation [OF d, of example_store]
  from t [THEN conjunct2, THEN conjunct1] mem bio only
  have some: "biomass_equation ?s = Some 3"
    by blast
  from t [THEN conjunct2, THEN conjunct2] some mem
  have "''bio1'' \<notin> fst ` set (uptake_secretion_reactions ?s)"
    and "''bio1'' \<notin> reactions_to_run ?s"
    by blast+
  then show ?thesis
    by (intro conjI mem bio some)
qed

subsection \<open>C5: the filtered compounds\<close>

text \<open>
  Claim C5. A compound id is a key of \<^verbatim>\<open>filtered_compounds\<close> if and only if the
  dictionary of all compounds maps it to a compound whose \<^verbatim>\<open>uptake_secretion\<close> flag
  is false; a key that is kept maps to the compound it mapped to before; every item of the
  result is an item of the input, unchanged; and the result is a dictionary again. Cell 9
  builds a new dictionary and writes to nothing else.
\<close>

theorem filtered_compounds_keys:
  fixes compounds :: "compound dict"
  assumes "distinct (map fst compounds)"
  shows "(c \<in> fst ` set (filtered_compounds compounds) \<longleftrightarrow>
            (\<exists>v. map_of compounds c = Some v \<and> \<not> uptake_secretion v)) \<and>
         (\<forall>v. map_of (filtered_compounds compounds) c = Some v \<longrightarrow>
              map_of compounds c = Some v) \<and>
         set (filtered_compounds compounds) \<subseteq> set compounds \<and>
         distinct (map fst (filtered_compounds compounds))"
proof -
  let ?f = "filter (\<lambda>(c, v). \<not> uptake_secretion v) compounds"
  have f: "filtered_compounds compounds = ?f"
    using assms by (rule filtered_compounds_filter)
  have d: "distinct (map fst ?f)"
    using assms by (rule distinct_map_filter)
  have keys: "c \<in> fst ` set ?f \<longleftrightarrow> (\<exists>v. map_of compounds c = Some v \<and> \<not> uptake_secretion v)"
    using assms by (force simp add: map_of_eq_Some_iff)
  have same: "map_of compounds c = Some v" if "map_of ?f c = Some v" for v
  proof -
    from that have "(c, v) \<in> set ?f"
      by (rule map_of_SomeD)
    then show ?thesis
      using assms by (simp add: map_of_eq_Some_iff)
  qed
  have sub: "set ?f \<subseteq> set compounds"
    by (rule filter_is_subset)
  show ?thesis
    unfolding f using same by (intro conjI keys allI impI sub d)
qed

theorem filtered_compounds_keys_witness:
  "distinct (map fst example_compounds) \<and>
   ''ATP[c]'' \<in> fst ` set (filtered_compounds example_compounds) \<and>
   ''Zinc[b]'' \<notin> fst ` set (filtered_compounds example_compounds) \<and>
   map_of (filtered_compounds example_compounds) ''ATP[c]'' = Some atp"
proof -
  have d: "distinct (map fst example_compounds)"
    by simp
  have a: "map_of example_compounds ''ATP[c]'' = Some atp"
    and z: "map_of example_compounds ''Zinc[b]'' = Some zn_b"
    by (simp_all add: example_compounds_def)
  have fa: "\<not> uptake_secretion atp" and fz: "uptake_secretion zn_b"
    by (simp_all add: atp_def zn_b_def)
  from filtered_compounds_keys [OF d, of "''ATP[c]''"] a fa
  have ka: "''ATP[c]'' \<in> fst ` set (filtered_compounds example_compounds)"
    by simp
  from filtered_compounds_keys [OF d, of "''Zinc[b]''"] z fz
  have kz: "''Zinc[b]'' \<notin> fst ` set (filtered_compounds example_compounds)"
    by simp
  note t = filtered_compounds_keys [OF d, of "''ATP[c]''"]
  note same = t [THEN conjunct2, THEN conjunct1]
  note dist = t [THEN conjunct2, THEN conjunct2, THEN conjunct2]
  from ka dist obtain v where v: "map_of (filtered_compounds example_compounds) ''ATP[c]'' = Some v"
    by (force simp add: map_of_eq_Some_iff)
  with same a have "v = atp"
    by simp
  with v have va: "map_of (filtered_compounds example_compounds) ''ATP[c]'' = Some atp"
    by simp
  show ?thesis
    by (intro conjI d ka kz va)
qed

subsection \<open>C6: a model without a biomass reaction\<close>

text \<open>
  Claim C6, as the notebook has it. When no reaction's name matches the biomass marker,
  \<^verbatim>\<open>biomass_equation\<close> stays \<^verbatim>\<open>None\<close>, no cell raises an error, and the solver is
  called with \<^verbatim>\<open>None\<close> as its biomass reaction. The notebook has no check of
  \<^verbatim>\<open>biomass_equation\<close> before the call.
\<close>

theorem notebook_without_biomass:
  fixes h :: heap and reactions :: "addr dict"
  assumes "distinct (map fst reactions)"
    and "\<forall>(r, a)\<in>set reactions. \<not> is_biomass (h a)"
  shows "biomass_equation (classify h reactions) = None \<and>
         (\<exists>call. notebook h reactions compounds m = Inr call \<and>
                 fba_biomass_equation call = None)"
proof -
  from assms(2) have "filter (\<lambda>(r, a). is_biomass (h a)) reactions = []"
    by (auto simp add: filter_empty_conv)
  then have none: "biomass_equation (classify h reactions) = None"
    by (simp add: classify_biomass)
  show ?thesis
    unfolding notebook_runs [OF assms(1)] by (simp add: none)
qed

theorem notebook_without_biomass_witness:
  "distinct (map fst example_reactions_no_biomass) \<and>
   (\<exists>call. notebook example_store example_reactions_no_biomass example_compounds example_media =
             Inr call \<and>
           fba_biomass_equation call = None)"
proof -
  have d: "distinct (map fst example_reactions_no_biomass)"
    by simp
  have no: "\<forall>(r, a)\<in>set example_reactions_no_biomass. \<not> is_biomass (example_store a)"
    by (simp add: example_reactions_no_biomass_def)
  from notebook_without_biomass [OF d no, of example_compounds example_media] d
  show ?thesis
    by (intro conjI) (elim conjE, assumption)+
qed

text \<open>
  The example model without its biomass reaction: no name matches, and the notebook ends
  in the call of the solver, not in an error.
\<close>

theorem notebook_missing_objective_counterexample:
  "list_all (\<lambda>(r, a). \<not> is_biomass (example_store a)) example_reactions_no_biomass \<and>
   biomass_equation (classify example_store example_reactions_no_biomass) = None \<and>
   \<not> isl (notebook example_store example_reactions_no_biomass example_compounds example_media) \<and>
   fba_biomass_equation
     (projr (notebook example_store example_reactions_no_biomass example_compounds example_media)) =
   None"
proof -
  have d: "distinct (map fst example_reactions_no_biomass)"
    by simp
  have no: "list_all (\<lambda>(r, a). \<not> is_biomass (example_store a)) example_reactions_no_biomass"
    by (simp add: example_reactions_no_biomass_def)
  have none: "biomass_equation (classify example_store example_reactions_no_biomass) = None"
    by (subst classify_biomass) (simp add: example_reactions_no_biomass_def)
  show ?thesis
    unfolding notebook_runs [OF d] by (simp add: no none)
qed

subsection \<open>C7: what the notebook writes\<close>

text \<open>
  Claim C7. The notebook reaches the call of the solver, and in the store the solver
  reads, every reaction is the reaction the parser returned but for its
  \<^verbatim>\<open>is_uptake_secretion\<close> flag and its lower bound: the upper bound, the name and the
  compounds are the parser's. The dictionary of reactions (the ids) and the media are passed
  as they were, and every item of the compounds passed is an item of the parser's, so no
  compound has been written to.
\<close>

theorem notebook_frame:
  fixes h :: heap and reactions :: "addr dict"
  assumes "distinct (map fst reactions)"
  shows "\<exists>call. notebook h reactions compounds m = Inr call \<and>
           (\<forall>x. fba_store call x =
                  (h x)\<lparr>is_uptake_secretion := is_uptake_secretion (fba_store call x),
                        lower_bound := lower_bound (fba_store call x)\<rparr>) \<and>
           (\<forall>x. upper_bound (fba_store call x) = upper_bound (h x) \<and>
                name (fba_store call x) = name (h x) \<and>
                all_compounds (fba_store call x) = all_compounds (h x)) \<and>
           fba_reactions call = reactions \<and>
           fba_media call = m \<and>
           set (fba_compounds call) \<subseteq> set compounds"
proof -
  let ?s = "classify h reactions"
  let ?A = "{a. \<exists>u. (u, a) \<in> set (uptake_secretion_reactions ?s) \<and> \<not> in_media m (h a)}"
  let ?h' = "zero_lower_bounds ?A (store ?s)"
  have frame: "?h' x = (h x)\<lparr>is_uptake_secretion := is_uptake_secretion (?h' x),
      lower_bound := lower_bound (?h' x)\<rparr>" for x
  proof -
    have "?h' x = (store ?s x)\<lparr>lower_bound := lower_bound (?h' x)\<rparr>"
      by (rule zero_lower_bounds_frame)
    also have "store ?s x = (h x)\<lparr>is_uptake_secretion := is_uptake_secretion (store ?s x)\<rparr>"
      by (rule classify_frame)
    also have "is_uptake_secretion (store ?s x) = is_uptake_secretion (?h' x)"
      by (simp add: zero_lower_bounds_def)
    finally show ?thesis .
  qed
  have fields: "upper_bound (?h' x) = upper_bound (h x) \<and> name (?h' x) = name (h x) \<and>
      all_compounds (?h' x) = all_compounds (h x)" for x
    by (subst (1 2 3) frame) simp
  let ?call = "\<lparr>fba_compounds = filtered_compounds compounds, fba_store = ?h',
      fba_reactions = reactions, fba_reactions_to_run = reactions_to_run ?s, fba_media = m,
      fba_biomass_equation = biomass_equation ?s,
      fba_uptake_secretion_reactions = uptake_secretion_reactions ?s\<rparr>"
  have run: "notebook h reactions compounds m = Inr ?call"
    using assms by (rule notebook_runs)
  have st: "fba_store ?call = ?h'"
    by simp
  have c1: "\<forall>x. fba_store ?call x =
      (h x)\<lparr>is_uptake_secretion := is_uptake_secretion (fba_store ?call x),
            lower_bound := lower_bound (fba_store ?call x)\<rparr>"
    unfolding st by (rule allI) (rule frame)
  have c2: "\<forall>x. upper_bound (fba_store ?call x) = upper_bound (h x) \<and>
      name (fba_store ?call x) = name (h x) \<and>
      all_compounds (fba_store ?call x) = all_compounds (h x)"
    unfolding st by (rule allI) (rule fields)
  have c3: "fba_reactions ?call = reactions" and c4: "fba_media ?call = m"
    by simp_all
  have c5: "set (fba_compounds ?call) \<subseteq> set compounds"
    using filtered_compounds_subset [of compounds] by simp
  show ?thesis
    by (intro exI [of _ ?call] conjI run c1 c2 c3 c4 c5)
qed

theorem notebook_frame_witness:
  "distinct (map fst example_reactions) \<and>
   (\<exists>call. notebook example_store example_reactions example_compounds example_media = Inr call \<and>
           upper_bound (fba_store call 2) = 1000 \<and>
           name (fba_store call 2) = ''EX_zinc'' \<and>
           all_compounds (fba_store call 2) = [zn_e, zn_b] \<and>
           fba_reactions call = example_reactions)"
proof -
  have d: "distinct (map fst example_reactions)"
    by simp
  from notebook_frame [OF d, of example_store example_compounds example_media]
  obtain call where run: "notebook example_store example_reactions example_compounds example_media =
      Inr call"
    and fields: "\<forall>x. upper_bound (fba_store call x) = upper_bound (example_store x) \<and>
      name (fba_store call x) = name (example_store x) \<and>
      all_compounds (fba_store call x) = all_compounds (example_store x)"
    and rs: "fba_reactions call = example_reactions"
    by blast
  from fields have "upper_bound (fba_store call 2) = 1000"
    and "name (fba_store call 2) = ''EX_zinc''"
    and "all_compounds (fba_store call 2) = [zn_e, zn_b]"
    by (simp_all add: example_store_def)
  with run rs d show ?thesis
    by blast
qed

subsection \<open>C8: cell 17 twice\<close>

text \<open>
  Claim C8. For every dictionary of reactions, every dictionary of boundary reactions,
  every media and every store, running cell 17 again on the store it returned gives that
  store again; and when the first run raises, that is the result.
\<close>

theorem reconcile_idempotent:
  "(case reconcile reactions m boundary h of
      Inl e \<Rightarrow> Inl e
    | Inr h' \<Rightarrow> reconcile reactions m boundary h') =
   reconcile reactions m boundary h"
  by (simp add: reconcile_closed_form zero_lower_bounds_twice)

theorem reconcile_idempotent_witness:
  "(case reconcile example_reactions example_media [(''EX_glucose'', 1), (''EX_zinc'', 2)]
           example_store of
      Inl e \<Rightarrow> Inl e
    | Inr h' \<Rightarrow>
        reconcile example_reactions example_media [(''EX_glucose'', 1), (''EX_zinc'', 2)] h') =
   reconcile example_reactions example_media [(''EX_glucose'', 1), (''EX_zinc'', 2)] example_store \<and>
   \<not> isl (reconcile example_reactions example_media [(''EX_glucose'', 1), (''EX_zinc'', 2)]
           example_store)"
proof -
  have "\<forall>(u, a)\<in>set [(''EX_glucose'', 1), (''EX_zinc'', 2)]. map_of example_reactions u = Some a"
    by (simp add: example_reactions_def)
  then have "\<not> isl (reconcile example_reactions example_media
      [(''EX_glucose'', 1), (''EX_zinc'', 2)] example_store)"
    by (subst reconcile_submapping) simp_all
  with reconcile_idempotent [of example_reactions example_media
      "[(''EX_glucose'', 1), (''EX_zinc'', 2)]" example_store]
  show ?thesis
    by (rule conjI)
qed

subsection \<open>C9: a model without boundary reactions\<close>

text \<open>
  Claim C9, as the notebook has it. When cell 5 leaves
  \<^verbatim>\<open>uptake_secretion_reactions\<close> empty, cell 17 returns the store it was given,
  whatever the media; and \<^verbatim>\<open>filtered_compounds\<close> is the dictionary of all compounds
  provided that every compound of that dictionary whose flag is set is a compound of some
  reaction whose name does not match the biomass marker.
\<close>

theorem empty_boundary_noop:
  fixes h :: heap and reactions :: "addr dict" and compounds :: "compound dict"
  assumes "distinct (map fst reactions)" and "distinct (map fst compounds)"
    and "uptake_secretion_reactions (classify h reactions) = []"
    and "\<forall>(c, v)\<in>set compounds. uptake_secretion v \<longrightarrow>
           (\<exists>(r, a)\<in>set reactions. \<not> is_biomass (h a) \<and> v \<in> set (all_compounds (h a)))"
  shows "filtered_compounds compounds = compounds \<and>
         reconcile reactions m (uptake_secretion_reactions (classify h reactions))
           (store (classify h reactions)) = Inr (store (classify h reactions))"
proof -
  have none: "\<not> (\<not> is_biomass (h a) \<and> flagged (h a))" if "(r, a) \<in> set reactions" for r a
  proof
    assume "\<not> is_biomass (h a) \<and> flagged (h a)"
    with that have "(r, a) \<in> set (uptake_secretion_reactions (classify h reactions))"
      by (simp add: classify_usr_mem [OF assms(1)])
    with assms(3) show False by simp
  qed
  have clear: "\<not> uptake_secretion v" if "(c, v) \<in> set compounds" for c v
  proof
    assume v: "uptake_secretion v"
    with assms(4) that obtain r a where "(r, a) \<in> set reactions" "\<not> is_biomass (h a)"
      "v \<in> set (all_compounds (h a))"
      by blast
    with v none [of r a] show False by blast
  qed
  have "filter (\<lambda>(c, v). \<not> uptake_secretion v) compounds = compounds"
    using clear by (auto simp add: filter_id_conv)
  then have "filtered_compounds compounds = compounds"
    by (simp add: filtered_compounds_filter [OF assms(2)])
  then show ?thesis
    by (simp add: assms(3))
qed

theorem empty_boundary_noop_witness:
  "uptake_secretion_reactions (classify example_store example_reactions_internal) = [] \<and>
   filtered_compounds example_compounds_internal = example_compounds_internal \<and>
   reconcile example_reactions_internal example_media
     (uptake_secretion_reactions (classify example_store example_reactions_internal))
     (store (classify example_store example_reactions_internal)) =
   Inr (store (classify example_store example_reactions_internal))"
proof -
  have d: "distinct (map fst example_reactions_internal)"
    and dc: "distinct (map fst example_compounds_internal)"
    by simp_all
  have empty: "uptake_secretion_reactions (classify example_store example_reactions_internal) = []"
    by (subst classify_usr) (simp_all add: example_reactions_internal_def)
  have ref: "\<forall>(c, v)\<in>set example_compounds_internal. uptake_secretion v \<longrightarrow>
      (\<exists>(r, a)\<in>set example_reactions_internal.
         \<not> is_biomass (example_store a) \<and> v \<in> set (all_compounds (example_store a)))"
    by (simp add: example_compounds_internal_def atp_def glc_e_def)
  from empty_boundary_noop [OF d dc empty ref, of example_media] empty
  show ?thesis
    by (intro conjI) (elim conjE, assumption)+
qed

text \<open>
  Without the proviso the filtered dictionary can be smaller: in this model the only
  reaction with a flagged compound is the biomass reaction, which cell 5 skips before it
  looks at the compounds, so no reaction is a boundary reaction, and cell 9 drops the
  flagged compound all the same.
\<close>

theorem empty_boundary_filtered_counterexample:
  "distinct (map fst example_reactions_biomass_drain) \<and>
   distinct (map fst example_compounds_biomass_drain) \<and>
   uptake_secretion_reactions (classify example_store example_reactions_biomass_drain) = [] \<and>
   filtered_compounds example_compounds_biomass_drain =
     [(''ATP[c]'', atp), (''D-Glucose[e]'', glc_e)] \<and>
   example_compounds_biomass_drain =
     [(''ATP[c]'', atp), (''D-Glucose[e]'', glc_e), (''Zinc[b]'', zn_b)] \<and>
   filtered_compounds example_compounds_biomass_drain \<noteq> example_compounds_biomass_drain"
proof -
  have d: "distinct (map fst example_reactions_biomass_drain)"
    and dc: "distinct (map fst example_compounds_biomass_drain)"
    by simp_all
  have empty: "uptake_secretion_reactions (classify example_store example_reactions_biomass_drain) = []"
    by (subst classify_usr) (simp_all add: example_reactions_biomass_drain_def)
  have f: "filtered_compounds example_compounds_biomass_drain =
      [(''ATP[c]'', atp), (''D-Glucose[e]'', glc_e)]"
    by (subst filtered_compounds_filter)
      (simp_all add: example_compounds_biomass_drain_def atp_def glc_e_def zn_b_def)
  have c: "example_compounds_biomass_drain =
      [(''ATP[c]'', atp), (''D-Glucose[e]'', glc_e), (''Zinc[b]'', zn_b)]"
    by (rule example_compounds_biomass_drain_def)
  have ne: "filtered_compounds example_compounds_biomass_drain \<noteq> example_compounds_biomass_drain"
    by (subst f, subst c) simp
  show ?thesis
    by (intro conjI d dc empty f c ne)
qed

subsection \<open>C10: cell 5 never clears a flag\<close>

text \<open>
  Claim C10. For every item \<open>(r, a)\<close> of \<^verbatim>\<open>reactions\<close> whose name does not match
  the biomass marker and none of whose compounds is flagged: \<open>r\<close> is in
  \<^verbatim>\<open>reactions_to_run\<close> and cell 5 leaves the reaction as the parser returned it, its
  \<^verbatim>\<open>is_uptake_secretion\<close> flag included; and no reaction's flag goes from true to
  false. In the example the reaction \<^verbatim>\<open>rxn00148\<close> is in \<^verbatim>\<open>reactions_to_run\<close>
  with its flag true.
\<close>

theorem classify_keeps_flag:
  fixes h :: heap and reactions :: "addr dict"
  assumes "(r, a) \<in> set reactions" and "\<not> is_biomass (h a)" and "\<not> flagged (h a)"
  defines "s \<equiv> classify h reactions"
  shows "r \<in> reactions_to_run s \<and>
         store s a = h a \<and>
         is_uptake_secretion (store s a) = is_uptake_secretion (h a) \<and>
         (\<forall>x. is_uptake_secretion (h x) \<longrightarrow> is_uptake_secretion (store s x))"
proof -
  have run: "r \<in> reactions_to_run s"
    unfolding s_def classify_run using assms(1-3) by blast
  have flag: "is_uptake_secretion (store s a) = is_uptake_secretion (h a)"
    unfolding s_def classify_flag using assms(3) by blast
  have "store s a = (h a)\<lparr>is_uptake_secretion := is_uptake_secretion (store s a)\<rparr>"
    unfolding s_def by (rule classify_frame)
  then have same: "store s a = h a"
    by (simp add: flag)
  have keep: "\<forall>x. is_uptake_secretion (h x) \<longrightarrow> is_uptake_secretion (store s x)"
    unfolding s_def classify_flag by blast
  show ?thesis
    by (intro conjI run same flag keep)
qed

theorem classify_keeps_flag_witness:
  "(''rxn00148'', 0) \<in> set example_reactions \<and>
   is_uptake_secretion (example_store 0) \<and>
   ''rxn00148'' \<in> reactions_to_run (classify example_store example_reactions) \<and>
   is_uptake_secretion (store (classify example_store example_reactions) 0)"
proof -
  have mem: "(''rxn00148'', 0) \<in> set example_reactions"
    by (simp add: example_reactions_def)
  have nb: "\<not> is_biomass (example_store 0)" and nf: "\<not> flagged (example_store 0)"
    by simp_all
  have fl: "is_uptake_secretion (example_store 0)"
    by (simp add: example_store_def)
  note t = classify_keeps_flag [where h = example_store and a = 0, OF mem nb nf]
  from t have run: "''rxn00148'' \<in> reactions_to_run (classify example_store example_reactions)"
    by (rule conjunct1)
  from t fl have kept: "is_uptake_secretion (store (classify example_store example_reactions) 0)"
    by simp
  show ?thesis
    by (intro conjI mem fl run kept)
qed

end
